theory Spec2Isabelle
  imports Main
begin

section \<open>JavaScript values used by the server\<close>

text \<open>
  A JavaScript string is the list of the bytes of its UTF-8 encoding (the strings of the
  server are well-formed text), so an ASCII character is one \<open>char\<close> and any other
  character is several. \<open>toLowerCase\<close> maps \<open>A\<close>..\<open>Z\<close> to \<open>a\<close>..\<open>z\<close>: host
  names with other cased letters are outside the model. A string that may be
  \<open>undefined\<close> is a \<open>string option\<close>.
\<close>

text \<open>
  What \<open>String.prototype.trim\<close> removes at both ends: the white space and line
  terminator characters of the language, each in UTF-8 (U+0009 to U+000D, U+0020,
  U+00A0, U+1680, U+2000 to U+200A, U+2028, U+2029, U+202F, U+205F, U+3000, U+FEFF).
\<close>

definition white_space :: "string list" where
  "white_space =
     [[CHR 0x09], [CHR 0x0A], [CHR 0x0B], [CHR 0x0C], [CHR 0x0D], [CHR 0x20],
      [CHR 0xC2, CHR 0xA0], [CHR 0xE1, CHR 0x9A, CHR 0x80],
      [CHR 0xE2, CHR 0x80, CHR 0x80], [CHR 0xE2, CHR 0x80, CHR 0x81],
      [CHR 0xE2, CHR 0x80, CHR 0x82], [CHR 0xE2, CHR 0x80, CHR 0x83],
      [CHR 0xE2, CHR 0x80, CHR 0x84], [CHR 0xE2, CHR 0x80, CHR 0x85],
      [CHR 0xE2, CHR 0x80, CHR 0x86], [CHR 0xE2, CHR 0x80, CHR 0x87],
      [CHR 0xE2, CHR 0x80, CHR 0x88], [CHR 0xE2, CHR 0x80, CHR 0x89],
      [CHR 0xE2, CHR 0x80, CHR 0x8A], [CHR 0xE2, CHR 0x80, CHR 0xA8],
      [CHR 0xE2, CHR 0x80, CHR 0xA9], [CHR 0xE2, CHR 0x80, CHR 0xAF],
      [CHR 0xE2, CHR 0x81, CHR 0x9F], [CHR 0xE3, CHR 0x80, CHR 0x80],
      [CHR 0xEF, CHR 0xBB, CHR 0xBF]]"

function strip_leading :: "string list \<Rightarrow> string \<Rightarrow> string" where
  "strip_leading ws s =
     (case find (\<lambda>w. w \<noteq> [] \<and> take (length w) s = w) ws of
        None \<Rightarrow> s
      | Some w \<Rightarrow> strip_leading ws (drop (length w) s))"
  by pat_completeness auto
termination
proof (relation "measure (\<lambda>(ws, s). length s)")
  fix ws :: "string list" and s w :: string
  assume "find (\<lambda>w. w \<noteq> [] \<and> take (length w) s = w) ws = Some w"
  then have w: "w \<noteq> []" "take (length w) s = w" by (auto simp: find_Some_iff)
  have "length (take (length w) s) = length w" using w(2) by simp
  then have "length w \<le> length s" by simp
  with w(1) show "((ws, drop (length w) s), (ws, s)) \<in> measure (\<lambda>(ws, s). length s)"
    by (cases w) auto
qed simp

definition trim :: "string \<Rightarrow> string" where
  "trim s = rev (strip_leading (map rev white_space) (rev (strip_leading white_space s)))"

definition lower_char :: "char \<Rightarrow> char" where
  "lower_char c =
     (case map_of (zip ''ABCDEFGHIJKLMNOPQRSTUVWXYZ'' ''abcdefghijklmnopqrstuvwxyz'') c of
        Some d \<Rightarrow> d
      | None \<Rightarrow> c)"

definition toLowerCase :: "string \<Rightarrow> string" where
  "toLowerCase s = map lower_char s"

text \<open>\<open>s.split(c)\<close> for a one-character separator: never the empty array.\<close>

fun js_split :: "char \<Rightarrow> string \<Rightarrow> string list" where
  "js_split c [] = [[]]"
| "js_split c (x # xs) =
     (if x = c then [] # js_split c xs
      else (case js_split c xs of
              w # ws \<Rightarrow> (x # w) # ws
            | [] \<Rightarrow> [[x]]))"

definition startsWith :: "string \<Rightarrow> string \<Rightarrow> bool" where
  "startsWith s p = (take (length p) s = p)"

definition endsWith :: "string \<Rightarrow> string \<Rightarrow> bool" where
  "endsWith s p = (length p \<le> length s \<and> drop (length s - length p) s = p)"

text \<open>
  \<open>a || b\<close> where \<open>a\<close> is a string or \<open>undefined\<close>: the empty string is falsy.
  \<open>or_else\<close> keeps the result optional, \<open>or_str\<close> ends a chain with a string.
\<close>

definition or_else :: "string option \<Rightarrow> string option \<Rightarrow> string option" where
  "or_else a b = (case a of Some s \<Rightarrow> (if s \<noteq> [] then Some s else b) | None \<Rightarrow> b)"

definition or_str :: "string option \<Rightarrow> string \<Rightarrow> string" where
  "or_str a d = (case a of Some s \<Rightarrow> (if s \<noteq> [] then s else d) | None \<Rightarrow> d)"

text \<open>
  The \<open>key\<close> of a request is read before anything has checked its shape, so it is a
  value of any type: \<open>undefined\<close>, a string, or something else (an array or object
  from a repeated or nested parameter, a number, boolean or \<open>null\<close> of a JSON body).
  Of a value that is not a string only its truthiness and what \<open>String\<close> makes of it
  matter.
\<close>

datatype jsval = Undefined | Str string | NonString bool string

definition truthy :: "jsval \<Rightarrow> bool" where
  "truthy v = (case v of Undefined \<Rightarrow> False | Str s \<Rightarrow> s \<noteq> [] | NonString t r \<Rightarrow> t)"

definition js_or :: "jsval \<Rightarrow> jsval \<Rightarrow> jsval" where
  "js_or a b = (if truthy a then a else b)"

definition to_String :: "jsval \<Rightarrow> string" where
  "to_String v = (case v of Undefined \<Rightarrow> ''undefined'' | Str s \<Rightarrow> s | NonString t r \<Rightarrow> r)"

text \<open>
  Template literals print a number in decimal. The counters and timestamps of the server
  are non-negative integers far below \<open>2^53\<close>, where JavaScript numbers are exact, so
  they are natural numbers here.
\<close>

definition digit_char :: "nat \<Rightarrow> char" where
  "digit_char d = ''0123456789'' ! d"

fun string_of_nat :: "nat \<Rightarrow> string" where
  "string_of_nat n =
     (if n < 10 then [digit_char n]
      else string_of_nat (n div 10) @ [digit_char (n mod 10)])"

text \<open>
  An error object: its \<open>name\<close> and its \<open>message\<close>. \<open>String(err.message || err)\<close>
  is the message when there is one and otherwise the object's own rendering, which for
  an error with an empty message is its name.
\<close>

datatype exn = Exn (name: string) (message: string)

definition error_text :: "exn \<Rightarrow> string" where
  "error_text e = (if message e \<noteq> [] then message e else name e)"

section \<open>The hosted backend\<close>

text \<open>
  An awaited call of the Supabase client either resolves to an object
  \<open>{ data, error }\<close>, each of which may be \<open>null\<close>, or it rejects, which the
  awaiting code sees as a thrown exception.
\<close>

datatype 'a reply = Resolved (data: "'a option") (err: "exn option") | Rejected exn

text \<open>
  The object the upload route inserts, and a row of the table \<open>videos\<close>, which adds the
  identity and the timestamp the database assigns by default.
\<close>

record new_video =
  slug :: string
  title :: string
  description :: string
  file_path :: string
  url :: string
  fullUrl :: string

record video = new_video +
  vid :: nat
  created_at :: nat

section \<open>Database helpers\<close>

text \<open>
  Each helper awaits one query (two for \<open>readVideos\<close>); the answers of the client are
  its arguments. \<open>Inl\<close> is a thrown exception. What the helpers write to the console
  is left out: it changes neither their result nor the store.
\<close>

text \<open>\<open>readVideos\<close> of \<open>server.js\<close>: the second query runs in the \<open>catch\<close> block.\<close>

definition readVideos :: "(string \<Rightarrow> video list reply) \<Rightarrow> exn + video list" where
  "readVideos q =
     (case q ''created_at'' of
        Resolved d e \<Rightarrow> Inr (case d of Some vs \<Rightarrow> vs | None \<Rightarrow> [])
      | Rejected x \<Rightarrow>
          (case q ''id'' of
             Resolved d e \<Rightarrow> Inr (case d of Some vs \<Rightarrow> vs | None \<Rightarrow> [])
           | Rejected y \<Rightarrow> Inl y))"

text \<open>\<open>readVideos\<close> of the second variant of the server (\<open>src/unnamed/part_000\<close>).\<close>

definition readVideos_part000 :: "(string \<Rightarrow> video list reply) \<Rightarrow> exn + video list" where
  "readVideos_part000 q =
     (case q ''createdAt'' of
        Rejected x \<Rightarrow> Inl x
      | Resolved d e \<Rightarrow>
          (case (e, d) of
             (None, Some vs) \<Rightarrow> Inr vs
           | _ \<Rightarrow>
               (case q ''id'' of
                  Rejected y \<Rightarrow> Inl y
                | Resolved d2 e2 \<Rightarrow>
                    (if e2 \<noteq> None then Inr []
                     else Inr (case d2 of Some vs \<Rightarrow> vs | None \<Rightarrow> [])))))"

definition getVideoBySlug :: "(string \<Rightarrow> video reply) \<Rightarrow> string \<Rightarrow> exn + video option" where
  "getVideoBySlug q s =
     (case q s of
        Rejected x \<Rightarrow> Inl x
      | Resolved d e \<Rightarrow> (if e \<noteq> None then Inr None else Inr d))"

definition insertVideo :: "unit reply \<Rightarrow> exn + unit" where
  "insertVideo answer =
     (case answer of
        Rejected x \<Rightarrow> Inl x
      | Resolved d e \<Rightarrow> (case e of Some x \<Rightarrow> Inl x | None \<Rightarrow> Inr ()))"

text \<open>The data of the delete query is the \<open>file_path\<close> of the removed row, or \<open>null\<close>.\<close>

definition deleteVideoBySlug :: "string reply \<Rightarrow> exn + string option" where
  "deleteVideoBySlug answer =
     (case answer of
        Rejected x \<Rightarrow> Inl x
      | Resolved d e \<Rightarrow> (case e of Some x \<Rightarrow> Inl x | None \<Rightarrow> Inr d))"

section \<open>Slug allocation\<close>

text \<open>
  The loop of the upload route, with its variables \<open>slug\<close>, \<open>exists\<close> and \<open>i\<close> as
  arguments. It need not terminate, so it returns an option; an exception thrown by a
  lookup leaves the loop.
\<close>

partial_function (option) slug_loop ::
  "(string \<Rightarrow> video reply) \<Rightarrow> string \<Rightarrow> string \<Rightarrow> video option \<Rightarrow> nat \<Rightarrow> (exn + string) option"
where
  "slug_loop q base s exists i =
     (if exists \<noteq> None
      then (case getVideoBySlug q (base @ ''-'' @ string_of_nat i) of
              Inl x \<Rightarrow> Some (Inl x)
            | Inr exists' \<Rightarrow> slug_loop q base (base @ ''-'' @ string_of_nat i) exists' (i + 1))
      else Some (Inr s))"

text \<open>The lines before the loop: the base token, and the first lookup.\<close>

definition slug_from :: "(string \<Rightarrow> video reply) \<Rightarrow> string \<Rightarrow> (exn + string) option" where
  "slug_from q base =
     (case getVideoBySlug q base of
        Inl x \<Rightarrow> Some (Inl x)
      | Inr exists \<Rightarrow> slug_loop q base base exists 2)"

text \<open>
  \<open>server.js\<close>: \<open>slugify(title, ...) || "video"\<close>. The package \<open>slugify\<close> is not part
  of the repository and is a parameter.
\<close>

definition allocate_slug ::
  "(string \<Rightarrow> string) \<Rightarrow> (string \<Rightarrow> video reply) \<Rightarrow> string \<Rightarrow> (exn + string) option" where
  "allocate_slug slugify q t = slug_from q (if slugify t \<noteq> [] then slugify t else ''video'')"

text \<open>The second variant (\<open>src/unnamed/part_000\<close>) starts from \<open>slugify(title, ...)\<close> as it is.\<close>

definition allocate_slug_part000 ::
  "(string \<Rightarrow> string) \<Rightarrow> (string \<Rightarrow> video reply) \<Rightarrow> string \<Rightarrow> (exn + string) option" where
  "allocate_slug_part000 slugify q t = slug_from q (slugify t)"

section \<open>Requests, responses and configuration\<close>

text \<open>
  A request as the handlers read it. \<open>route\<close> is the route Express matched (method and
  path), \<open>body\<close> is what \<open>express.urlencoded\<close> and \<open>express.json\<close> parsed (an
  object in any case, with no field for a multipart request), and \<open>multipart\<close> is the
  multipart payload that only \<open>multer\<close> reads: its text fields and the file part named
  \<open>video\<close>. A header is a string or \<open>undefined\<close>.
\<close>

datatype route =
  Home | Healthz | Watch string | Admin | AdminUpload | AdminDelete string
  | SwJs | Public string | Unmatched

record form =
  body_key :: jsval
  body_title :: "string option"
  body_description :: "string option"
  body_fullUrl :: "string option"

record upload_file =
  mimetype :: string
  fsize :: nat
  content :: string

record request =
  route :: route
  protocol :: string
  originalUrl :: string
  x_forwarded_host :: "string option"
  host :: "string option"
  x_admin_key :: "string option"
  query_key :: jsval
  query_admin :: "string option"
  body :: form
  multipart :: "(form \<times> upload_file option) option"

text \<open>
  What a request ends with. \<open>ErrorHandler e\<close>: a middleware passed \<open>e\<close> to
  \<open>next\<close>; the server registers no error-handling middleware, so the framework's
  default error handler answers. \<open>Unhandled e\<close>: the promise of an async handler
  rejected outside any \<open>try\<close>.
\<close>

datatype page =
  HomePage "video list"
  | WatchPage video string bool
  | AdminPage "video list" jsval

datatype response =
  Send nat string
  | Redirect nat string
  | Render page
  | HealthJson bool bool string
  | SendFile string
  | Static string
  | ErrorHandler exn
  | Unhandled exn

text \<open>The constants read from the environment when the server starts.\<close>

record config =
  ADMIN_KEY :: string
  BASE_URL :: string
  ALLOWED_HOSTS :: "string option"
  SUPABASE_URL :: string
  SUPABASE_KEY :: string
  SUPABASE_BUCKET :: string

section \<open>A model of the hosted service\<close>

text \<open>
  The table \<open>videos\<close> and the storage bucket live in a hosted service that is not part
  of the repository. The store below is what the service holds; \<open>world\<close> collects what
  else a request depends on and the code does not decide: how each remote call ends
  (\<open>fault\<close>), the columns of the table a list can be ordered by, the clocks, whether
  the uploaded temporary file can be read, and the library functions \<open>slugify\<close>,
  \<open>mime.extension\<close>, \<open>getPublicUrl\<close> and \<open>encodeURIComponent\<close>.
\<close>

datatype call =
  SelectOrder string | SelectSlug string | InsertRow | DeleteSlug string
  | StorageUpload string | StorageRemove string

datatype fault = NoFault | ErrorReply exn | Throws exn

record store =
  rows :: "video list"
  blobs :: "string \<rightharpoonup> string \<times> string"
  next_id :: nat

record world =
  fault :: "call \<Rightarrow> fault"
  order_key :: "string \<Rightarrow> (video \<Rightarrow> nat) option"
  db_now :: nat
  now :: nat
  read_tmp :: "exn option"
  slugify :: "string \<Rightarrow> string"
  mime_extension :: "string \<Rightarrow> string option"
  public_url :: "string \<Rightarrow> string"
  encodeURIComponent :: "string \<Rightarrow> string"

text \<open>\<open>from("videos").select("*").order(col, { ascending: false })\<close>\<close>

definition videos_select_order :: "world \<Rightarrow> store \<Rightarrow> string \<Rightarrow> video list reply" where
  "videos_select_order w st col =
     (case fault w (SelectOrder col) of
        Throws x \<Rightarrow> Rejected x
      | ErrorReply e \<Rightarrow> Resolved None (Some e)
      | NoFault \<Rightarrow>
          (case order_key w col of
             None \<Rightarrow> Resolved None (Some (Exn ''PostgrestError'' ''column does not exist''))
           | Some k \<Rightarrow> Resolved (Some (rev (sort_key k (rows st)))) None))"

text \<open>\<open>from("videos").select("*").eq("slug", s).limit(1).maybeSingle()\<close>\<close>

definition videos_select_slug :: "world \<Rightarrow> store \<Rightarrow> string \<Rightarrow> video reply" where
  "videos_select_slug w st s =
     (case fault w (SelectSlug s) of
        Throws x \<Rightarrow> Rejected x
      | ErrorReply e \<Rightarrow> Resolved None (Some e)
      | NoFault \<Rightarrow> Resolved (find (\<lambda>v. slug v = s) (rows st)) None)"

text \<open>
  Modelled from the spec: the declaration of the table \<open>videos\<close>, which the repository
  does not hold. Its column \<open>slug\<close> is unique (sections 3 and 6 of the specification),
  so \<open>from("videos").insert([row])\<close> is refused with an error when a row has the slug
  already; otherwise the row is appended and the database assigns \<open>id\<close> and
  \<open>created_at\<close>.
\<close>

definition videos_insert :: "world \<Rightarrow> store \<Rightarrow> new_video \<Rightarrow> unit reply \<times> store" where
  "videos_insert w st r =
     (case fault w InsertRow of
        Throws x \<Rightarrow> (Rejected x, st)
      | ErrorReply e \<Rightarrow> (Resolved None (Some e), st)
      | NoFault \<Rightarrow>
          (if slug r \<in> set (map slug (rows st))
           then (Resolved None (Some (Exn ''PostgrestError'' ''duplicate key value'')), st)
           else (Resolved None None,
                 st\<lparr>rows := rows st @
                       [\<lparr>slug = slug r, title = title r, description = description r,
                         file_path = file_path r, url = url r, fullUrl = fullUrl r,
                         vid = next_id st, created_at = db_now w\<rparr>],
                    next_id := next_id st + 1\<rparr>)))"

text \<open>
  \<open>from("videos").delete().eq("slug", s).select("file_path").maybeSingle()\<close>: no
  matching row is \<open>null\<close> data; more than one is an error of the service, which then
  removes nothing.
\<close>

definition videos_delete :: "world \<Rightarrow> store \<Rightarrow> string \<Rightarrow> string reply \<times> store" where
  "videos_delete w st s =
     (case fault w (DeleteSlug s) of
        Throws x \<Rightarrow> (Rejected x, st)
      | ErrorReply e \<Rightarrow> (Resolved None (Some e), st)
      | NoFault \<Rightarrow>
          (case filter (\<lambda>v. slug v = s) (rows st) of
             [] \<Rightarrow> (Resolved None None, st)
           | [v] \<Rightarrow> (Resolved (Some (file_path v)) None,
                      st\<lparr>rows := filter (\<lambda>v. slug v \<noteq> s) (rows st)\<rparr>)
           | _ \<Rightarrow> (Resolved None (Some (Exn ''PostgrestError'' ''multiple rows returned'')), st)))"

text \<open>\<open>storage.from(bucket).upload(path, bytes, { contentType, upsert: true })\<close>\<close>

definition storage_upload ::
  "world \<Rightarrow> store \<Rightarrow> string \<Rightarrow> string \<Rightarrow> string \<Rightarrow> unit reply \<times> store" where
  "storage_upload w st path bytes contentType =
     (case fault w (StorageUpload path) of
        Throws x \<Rightarrow> (Rejected x, st)
      | ErrorReply e \<Rightarrow> (Resolved None (Some e), st)
      | NoFault \<Rightarrow> (Resolved (Some ()) None, st\<lparr>blobs := (blobs st)(path \<mapsto> (bytes, contentType))\<rparr>))"

text \<open>\<open>storage.from(bucket).remove([path])\<close>\<close>

definition storage_remove :: "world \<Rightarrow> store \<Rightarrow> string \<Rightarrow> unit reply \<times> store" where
  "storage_remove w st path =
     (case fault w (StorageRemove path) of
        Throws x \<Rightarrow> (Rejected x, st)
      | ErrorReply e \<Rightarrow> (Resolved None (Some e), st)
      | NoFault \<Rightarrow> (Resolved (Some ()) None, st\<lparr>blobs := (blobs st)(path := None)\<rparr>))"

section \<open>Host filter\<close>

text \<open>The host both variants compare: forwarded host first, then the \<open>Host\<close> header.\<close>

definition effective_host :: "request \<Rightarrow> string" where
  "effective_host req =
     toLowerCase (hd (js_split CHR '':'' (or_str (or_else (x_forwarded_host req) (host req)) [])))"

text \<open>\<open>server.js\<close>: the allow-list of \<open>ALLOWED_HOSTS\<close>, installed when it is not blank.\<close>

definition allow_list :: "string \<Rightarrow> string list" where
  "allow_list RAW_HOSTS =
     filter (\<lambda>s. s \<noteq> []) (map (\<lambda>s. toLowerCase (trim s)) (js_split CHR '','' RAW_HOSTS))"

definition allowHost :: "string list \<Rightarrow> string \<Rightarrow> bool" where
  "allowHost ALLOW h =
     list_ex (\<lambda>p. if startsWith p ''*.'' then endsWith h (drop 1 p) else h = p) ALLOW"

definition host_filter :: "config \<Rightarrow> request \<Rightarrow> response option" where
  "host_filter cfg req =
     (let RAW_HOSTS = trim (or_str (ALLOWED_HOSTS cfg) [])
      in if RAW_HOSTS \<noteq> []
         then (if allowHost (allow_list RAW_HOSTS) (effective_host req) then None
               else Some (Send 403 ''Forbidden host''))
         else None)"

text \<open>The second variant (\<open>src/unnamed/part_000\<close>): a fixed set and a permanent redirect.\<close>

definition ALLOWED_part000 :: "string list" where
  "ALLOWED_part000 = [''shortmovies.xyz'', ''www.shortmovies.xyz'', ''localhost'', ''127.0.0.1'']"

definition host_redirect_part000 :: "request \<Rightarrow> response option" where
  "host_redirect_part000 req =
     (if effective_host req \<in> set ALLOWED_part000 then None
      else Some (Redirect 301
             (''https://shortmovies.xyz'' @ (if originalUrl req \<noteq> [] then originalUrl req else ''/''))))"

section \<open>Admin guard\<close>

text \<open>\<open>req.query.key || req.body.key || req.get("x-admin-key") || ""\<close>\<close>

definition supplied_key :: "request \<Rightarrow> jsval" where
  "supplied_key req =
     js_or (js_or (js_or (query_key req) (body_key (body req)))
                  (case x_admin_key req of None \<Rightarrow> Undefined | Some h \<Rightarrow> Str h))
           (Str [])"

text \<open>
  \<open>None\<close> is \<open>next()\<close>. A supplied value that is not a string has no \<open>trim\<close>
  method: the call throws a \<open>TypeError\<close>, which Express passes to its error handling
  (the wording of the message is the engine's and is not modelled).
\<close>

definition checkAdmin :: "string \<Rightarrow> request \<Rightarrow> response option" where
  "checkAdmin admin_key req =
     (case supplied_key req of
        Str s \<Rightarrow>
          (let key = trim s
           in if admin_key \<noteq> [] \<and> key = admin_key then None
              else Some (Send 403 ''Forbidden: Admin key required''))
      | _ \<Rightarrow> Some (ErrorHandler (Exn ''TypeError'' ''trim is not a function'')))"

section \<open>Upload middleware\<close>

definition fileFilter :: "upload_file \<Rightarrow> exn option" where
  "fileFilter file =
     (if mimetype file \<in> set [''video/mp4'', ''video/webm'', ''video/ogg''] then None
      else Some (Exn ''Error'' ''Format video harus mp4/webm/ogg''))"

definition fileSize_limit :: nat where
  "fileSize_limit = 1024 * 1024 * 300"

text \<open>
  \<open>upload.single("video")\<close>: \<open>multer\<close> reads a multipart payload only, asks
  \<open>fileFilter\<close> when the file part starts and enforces the size limit while it stores
  the file; an error goes to \<open>next\<close>. The result is \<open>req.body\<close> and \<open>req.file\<close> as
  the handler sees them.
\<close>

definition upload_single :: "request \<Rightarrow> exn + form \<times> upload_file option" where
  "upload_single req =
     (case multipart req of
        None \<Rightarrow> Inr (body req, None)
      | Some (b, None) \<Rightarrow> Inr (b, None)
      | Some (b, Some file) \<Rightarrow>
          (case fileFilter file of
             Some e \<Rightarrow> Inl e
           | None \<Rightarrow>
               (if fileSize_limit < fsize file then Inl (Exn ''MulterError'' ''File too large'')
                else Inr (b, Some file))))"

section \<open>Route handlers of \<open>server.js\<close>\<close>

definition site_baseUrl :: "config \<Rightarrow> request \<Rightarrow> string" where
  "site_baseUrl cfg req =
     (if BASE_URL cfg \<noteq> [] then BASE_URL cfg
      else protocol req @ ''://'' @ (case host req of Some h \<Rightarrow> h | None \<Rightarrow> ''undefined''))"

definition home :: "world \<Rightarrow> store \<Rightarrow> response" where
  "home w st =
     (case readVideos (videos_select_order w st) of
        Inl x \<Rightarrow> Unhandled x
      | Inr videos \<Rightarrow> Render (HomePage videos))"

definition watch :: "config \<Rightarrow> world \<Rightarrow> store \<Rightarrow> request \<Rightarrow> string \<Rightarrow> response" where
  "watch cfg w st req s =
     (case getVideoBySlug (videos_select_slug w st) s of
        Inl x \<Rightarrow> Unhandled x
      | Inr None \<Rightarrow> Send 404 ''Video tidak ditemukan''
      | Inr (Some v) \<Rightarrow>
          Render (WatchPage v (site_baseUrl cfg req @ ''/watch/'' @ slug v)
                    (query_admin req = Some ''1'')))"

definition admin :: "world \<Rightarrow> store \<Rightarrow> request \<Rightarrow> response" where
  "admin w st req =
     (case readVideos (videos_select_order w st) of
        Inl x \<Rightarrow> Unhandled x
      | Inr videos \<Rightarrow> Render (AdminPage videos (query_key req)))"

text \<open>
  The \<open>try\<close> block of the upload route up to the insert; \<open>Inl\<close> is the exception the
  \<open>catch\<close> block receives. The removal of the temporary file after the insert is
  left out: its failure is swallowed and it touches neither the response nor the store.
\<close>

definition upload_try ::
  "world \<Rightarrow> store \<Rightarrow> form \<Rightarrow> upload_file option \<Rightarrow> ((exn + unit) \<times> store) option" where
  "upload_try w st b file =
     (case (body_title b, file) of
        (Some t, Some f) \<Rightarrow>
          (if t = [] then Some (Inl (Exn ''Error'' ''Judul & file wajib.''), st)
           else
             (case allocate_slug (slugify w) (videos_select_slug w st) t of
                None \<Rightarrow> None
              | Some (Inl x) \<Rightarrow> Some (Inl x, st)
              | Some (Inr s) \<Rightarrow>
                  (let ext = or_str (mime_extension w (mimetype f)) ''mp4'';
                       filePath = ''trailers/'' @ string_of_nat (now w) @ ''_'' @ s @ ''.'' @ ext
                   in case read_tmp w of
                        Some x \<Rightarrow> Some (Inl x, st)
                      | None \<Rightarrow>
                          (case storage_upload w st filePath (content f) (mimetype f) of
                             (Rejected x, st1) \<Rightarrow> Some (Inl x, st1)
                           | (Resolved d (Some upErr), st1) \<Rightarrow> Some (Inl upErr, st1)
                           | (Resolved d None, st1) \<Rightarrow>
                               (case videos_insert w st1
                                       \<lparr>slug = s, title = trim t,
                                        description = trim (or_str (body_description b) []),
                                        file_path = filePath, url = public_url w filePath,
                                        fullUrl = trim (or_str (body_fullUrl b) [])\<rparr> of
                                  (answer, st2) \<Rightarrow>
                                    (case insertVideo answer of
                                       Inl x \<Rightarrow> Some (Inl x, st2)
                                     | Inr u \<Rightarrow> Some (Inr (), st2)))))))
      | _ \<Rightarrow> Some (Inl (Exn ''Error'' ''Judul & file wajib.''), st))"

definition admin_upload :: "world \<Rightarrow> store \<Rightarrow> request \<Rightarrow> (response \<times> store) option" where
  "admin_upload w st req =
     (case upload_single req of
        Inl e \<Rightarrow> Some (ErrorHandler e, st)
      | Inr (b, file) \<Rightarrow>
          (case upload_try w st b file of
             None \<Rightarrow> None
           | Some (Inl e, st') \<Rightarrow> Some (Send 400 (error_text e), st')
           | Some (Inr u, st') \<Rightarrow>
               Some (Redirect 302
                       (''/admin?key='' @
                        encodeURIComponent w
                          (to_String (js_or (js_or (query_key req) (body_key b)) (Str [])))),
                     st')))"

definition admin_delete :: "world \<Rightarrow> store \<Rightarrow> request \<Rightarrow> string \<Rightarrow> response \<times> store" where
  "admin_delete w st req s =
     (case videos_delete w st s of
        (answer, st1) \<Rightarrow>
          (case deleteVideoBySlug answer of
             Inl e \<Rightarrow> (Send 400 ''Gagal hapus'', st1)
           | Inr deleted \<Rightarrow>
               (let st2 = (case deleted of
                             None \<Rightarrow> st1
                           | Some fp \<Rightarrow>
                               (if fp = [] then st1
                                else (case storage_remove w st1 fp of
                                        (Rejected x, st') \<Rightarrow> st'
                                      | (Resolved d e, st') \<Rightarrow> st')))
                in (Redirect 302
                      (''/admin?key='' @
                       encodeURIComponent w
                         (to_String (js_or (js_or (query_key req) (body_key (body req))) (Str [])))),
                    st2))))"

text \<open>The routes in the order the server registers them, then the whole application.\<close>

definition routes :: "config \<Rightarrow> world \<Rightarrow> store \<Rightarrow> request \<Rightarrow> (response \<times> store) option" where
  "routes cfg w st req =
     (case route req of
        Public p \<Rightarrow> Some (Static p, st)
      | Healthz \<Rightarrow>
          Some (HealthJson (SUPABASE_URL cfg \<noteq> []) (SUPABASE_KEY cfg \<noteq> []) (SUPABASE_BUCKET cfg), st)
      | Home \<Rightarrow> Some (home w st, st)
      | Watch s \<Rightarrow> Some (watch cfg w st req s, st)
      | Admin \<Rightarrow>
          (case checkAdmin (ADMIN_KEY cfg) req of
             Some r \<Rightarrow> Some (r, st)
           | None \<Rightarrow> Some (admin w st req, st))
      | AdminUpload \<Rightarrow>
          (case checkAdmin (ADMIN_KEY cfg) req of
             Some r \<Rightarrow> Some (r, st)
           | None \<Rightarrow> admin_upload w st req)
      | AdminDelete s \<Rightarrow>
          (case checkAdmin (ADMIN_KEY cfg) req of
             Some r \<Rightarrow> Some (r, st)
           | None \<Rightarrow> Some (admin_delete w st req s))
      | SwJs \<Rightarrow> Some (SendFile ''sw.js'', st)
      | Unmatched \<Rightarrow> Some (Send 404 ''Not found'', st))"

definition app :: "config \<Rightarrow> world \<Rightarrow> store \<Rightarrow> request \<Rightarrow> (response \<times> store) option" where
  "app cfg w st req =
     (case host_filter cfg req of
        Some r \<Rightarrow> Some (r, st)
      | None \<Rightarrow> routes cfg w st req)"

text \<open>Requests handled one after the other, each in its own world.\<close>

fun run :: "config \<Rightarrow> store \<Rightarrow> (world \<times> request) list \<Rightarrow> store option" where
  "run cfg st [] = Some st"
| "run cfg st ((w, req) # rest) =
     (case app cfg w st req of
        None \<Rightarrow> None
      | Some (r, st') \<Rightarrow> run cfg st' rest)"

section \<open>Notions of the specification\<close>

text \<open>
  The candidates the specification lists for a base token: \<open>base\<close>, \<open>base-2\<close>,
  \<open>base-3\<close>, ... (numbered from 0), and what the loop takes as "this slug is taken": a
  lookup that returns a row.
\<close>

definition candidate :: "string \<Rightarrow> nat \<Rightarrow> string" where
  "candidate base n = (if n = 0 then base else base @ ''-'' @ string_of_nat (n + 1))"

definition reports_taken :: "(string \<Rightarrow> video reply) \<Rightarrow> string \<Rightarrow> bool" where
  "reports_taken q s = (case getVideoBySlug q s of Inr (Some v) \<Rightarrow> True | _ \<Rightarrow> False)"

section \<open>Example inputs\<close>

text \<open>
  A table with one row, a world in which nothing fails, a configuration, a request and
  a lookup that reports two slugs taken, used to instantiate the theorems below. The
  stand-in for \<open>slugify\<close> only replaces spaces by hyphens.
\<close>

abbreviation example_row :: video where
  "example_row \<equiv>
     \<lparr>slug = ''a'', title = ''A'', description = [], file_path = ''trailers/1_a.mp4'',
      url = ''https://cdn/trailers/1_a.mp4'', fullUrl = [], vid = 1, created_at = 10\<rparr>"

abbreviation example_store :: store where
  "example_store \<equiv>
     \<lparr>rows = [example_row],
      blobs = [''trailers/1_a.mp4'' \<mapsto> (''bytes'', ''video/mp4'')],
      next_id = 2\<rparr>"

abbreviation example_world :: world where
  "example_world \<equiv>
     \<lparr>fault = (\<lambda>c. NoFault),
      order_key = (\<lambda>c. if c = ''id'' then Some vid
                        else if c = ''created_at'' then Some created_at else None),
      db_now = 20, now = 5, read_tmp = None,
      slugify = map (\<lambda>c. if c = CHR '' '' then CHR ''-'' else c),
      mime_extension = (\<lambda>m. if m = ''video/mp4'' then Some ''mp4'' else None),
      public_url = (\<lambda>p. ''https://cdn/'' @ p),
      encodeURIComponent = (\<lambda>s. s)\<rparr>"

abbreviation example_config :: config where
  "example_config \<equiv>
     \<lparr>ADMIN_KEY = ''secret'', BASE_URL = [], ALLOWED_HOSTS = Some ''localhost,*.example.com'',
      SUPABASE_URL = ''https://x.supabase.co'', SUPABASE_KEY = ''k'', SUPABASE_BUCKET = ''videos''\<rparr>"

abbreviation example_request :: request where
  "example_request \<equiv>
     \<lparr>route = Home, protocol = ''https'', originalUrl = ''/'',
      x_forwarded_host = None, host = Some ''localhost:3000'', x_admin_key = Some ''secret'',
      query_key = Undefined, query_admin = None,
      body = \<lparr>body_key = Undefined, body_title = None, body_description = None,
               body_fullUrl = None\<rparr>,
      multipart = None\<rparr>"

abbreviation example_upload :: "string \<Rightarrow> string \<Rightarrow> request" where
  "example_upload t m \<equiv>
     example_request\<lparr>route := AdminUpload,
       multipart := Some (\<lparr>body_key = Undefined, body_title = Some t, body_description = None,
                            body_fullUrl = None\<rparr>,
                          Some \<lparr>mimetype = m, fsize = 3, content = ''abc''\<rparr>)\<rparr>"

abbreviation example_lookup :: "string \<Rightarrow> video reply" where
  "example_lookup \<equiv>
     (\<lambda>s. if s = ''my-trailer'' \<or> s = ''my-trailer-2''
          then Resolved (Some (example_row\<lparr>slug := s\<rparr>)) None
          else Resolved None None)"

section \<open>Decimal numerals and candidates\<close>

declare string_of_nat.simps [simp del]

declare strip_leading.simps [simp del]

lemma digit_char_inj: "d < 10 \<Longrightarrow> e < 10 \<Longrightarrow> digit_char d = digit_char e \<Longrightarrow> d = e"
proof -
  assume a: "d < 10" "e < 10" "digit_char d = digit_char e"
  have "distinct ''0123456789''" by simp
  moreover have "d < length ''0123456789''" "e < length ''0123456789''" using a by simp_all
  ultimately show "d = e" using a(3) unfolding digit_char_def
    by (metis nth_eq_iff_index_eq)
qed

lemma string_of_nat_nonempty: "string_of_nat n \<noteq> []"
  by (subst string_of_nat.simps) simp

lemma string_of_nat_inj: "string_of_nat m = string_of_nat n \<Longrightarrow> m = n"
proof (induction m arbitrary: n rule: string_of_nat.induct)
  case (1 m)
  show ?case
  proof (cases "m < 10")
    case True
    have "n < 10"
    proof (rule ccontr)
      assume "\<not> n < 10"
      then have "string_of_nat n = string_of_nat (n div 10) @ [digit_char (n mod 10)]"
        by (subst string_of_nat.simps) simp
      moreover have "string_of_nat m = [digit_char m]" using True
        by (subst string_of_nat.simps) simp
      ultimately show False using "1.prems" string_of_nat_nonempty [of "n div 10"] by simp
    qed
    with True "1.prems" show ?thesis
      by (subst (asm) string_of_nat.simps, subst (asm) (2) string_of_nat.simps)
         (simp add: digit_char_inj)
  next
    case False
    have n: "\<not> n < 10"
    proof
      assume "n < 10"
      then have "string_of_nat n = [digit_char n]" by (subst string_of_nat.simps) simp
      moreover have "string_of_nat m = string_of_nat (m div 10) @ [digit_char (m mod 10)]"
        using False by (subst string_of_nat.simps) simp
      ultimately show False using "1.prems" string_of_nat_nonempty [of "m div 10"] by simp
    qed
    have em: "string_of_nat m = string_of_nat (m div 10) @ [digit_char (m mod 10)]"
      using False by (subst string_of_nat.simps) simp
    have en: "string_of_nat n = string_of_nat (n div 10) @ [digit_char (n mod 10)]"
      using n by (subst string_of_nat.simps) simp
    from "1.prems" em en have a: "string_of_nat (m div 10) = string_of_nat (n div 10)"
      and b: "digit_char (m mod 10) = digit_char (n mod 10)" by simp_all
    from a have "m div 10 = n div 10" using "1.IH" False by blast
    moreover from b have "m mod 10 = n mod 10" by (rule digit_char_inj [rotated 2]) simp_all
    ultimately show ?thesis by (metis div_mult_mod_eq)
  qed
qed

lemma string_of_nat_eq_iff: "string_of_nat m = string_of_nat n \<longleftrightarrow> m = n"
  using string_of_nat_inj by blast

lemma candidate_inj: "candidate base m = candidate base n \<Longrightarrow> m = n"
  by (auto simp: candidate_def string_of_nat_eq_iff split: if_splits)

lemma candidate_Suc: "candidate base (Suc k) = base @ ''-'' @ string_of_nat (k + 2)"
  by (simp add: candidate_def)

section \<open>The slug loop\<close>

lemma slug_loop_free:
  "getVideoBySlug q (candidate base k) = Inr e \<Longrightarrow>
   (\<forall>m. k \<le> m \<and> m < k + d \<longrightarrow> reports_taken q (candidate base m)) \<Longrightarrow>
   getVideoBySlug q (candidate base (k + d)) = Inr None \<Longrightarrow>
   slug_loop q base (candidate base k) e (k + 2) = Some (Inr (candidate base (k + d)))"
proof (induction d arbitrary: k e)
  case 0
  then show ?case by (subst slug_loop.simps) simp
next
  case (Suc d)
  from Suc.prems(2) have "reports_taken q (candidate base k)" by simp
  with Suc.prems(1) obtain v where e: "e = Some v"
    by (auto simp: reports_taken_def split: option.splits)
  have "\<exists>e'. getVideoBySlug q (candidate base (Suc k)) = Inr e'"
  proof (cases d)
    case 0
    with Suc.prems(3) show ?thesis by simp
  next
    case (Suc d')
    with Suc.prems(2) have "reports_taken q (candidate base (Suc k))" by simp
    then show ?thesis by (auto simp: reports_taken_def split: sum.splits)
  qed
  then obtain e' where e': "getVideoBySlug q (candidate base (Suc k)) = Inr e'" ..
  have "slug_loop q base (candidate base (Suc k)) e' (Suc k + 2)
          = Some (Inr (candidate base (Suc k + d)))"
    using e' Suc.prems(2,3) by (intro Suc.IH) simp_all
  then show ?case using e e'
    by (subst slug_loop.simps) (simp add: candidate_Suc)
qed

lemma slug_loop_throw:
  "getVideoBySlug q (candidate base k) = Inr e \<Longrightarrow>
   (\<forall>m. k \<le> m \<and> m \<le> k + d \<longrightarrow> reports_taken q (candidate base m)) \<Longrightarrow>
   getVideoBySlug q (candidate base (Suc (k + d))) = Inl x \<Longrightarrow>
   slug_loop q base (candidate base k) e (k + 2) = Some (Inl x)"
proof (induction d arbitrary: k e)
  case 0
  from 0(2) have "reports_taken q (candidate base k)" by simp
  with 0(1) obtain v where e: "e = Some v"
    by (auto simp: reports_taken_def split: option.splits)
  show ?case using e 0(3) by (subst slug_loop.simps) (simp add: candidate_Suc)
next
  case (Suc d)
  from Suc.prems(2) have "reports_taken q (candidate base k)" by simp
  with Suc.prems(1) obtain v where e: "e = Some v"
    by (auto simp: reports_taken_def split: option.splits)
  from Suc.prems(2) have "reports_taken q (candidate base (Suc k))" by simp
  then obtain e' where e': "getVideoBySlug q (candidate base (Suc k)) = Inr e'"
    by (auto simp: reports_taken_def split: sum.splits)
  have "slug_loop q base (candidate base (Suc k)) e' (Suc k + 2) = Some (Inl x)"
    using e' Suc.prems(2,3) by (intro Suc.IH) simp_all
  then show ?case using e e'
    by (subst slug_loop.simps) (simp add: candidate_Suc)
qed

lemma slug_from_free:
  assumes "\<forall>m<n. reports_taken q (candidate base m)"
    and "getVideoBySlug q (candidate base n) = Inr None"
  shows "slug_from q base = Some (Inr (candidate base n))"
proof -
  have "\<exists>e. getVideoBySlug q (candidate base 0) = Inr e"
  proof (cases n)
    case 0
    with assms(2) show ?thesis by simp
  next
    case (Suc n')
    with assms(1) have "reports_taken q (candidate base 0)" by simp
    then show ?thesis by (auto simp: reports_taken_def split: sum.splits)
  qed
  then obtain e where e: "getVideoBySlug q (candidate base 0) = Inr e" ..
  have "slug_loop q base (candidate base 0) e 2 = Some (Inr (candidate base n))"
    using slug_loop_free [of q base 0 e n] e assms by (simp add: numeral_2_eq_2)
  then show ?thesis using e by (simp add: slug_from_def candidate_def)
qed

lemma slug_from_throw:
  assumes "\<forall>m<n. reports_taken q (candidate base m)"
    and "getVideoBySlug q (candidate base n) = Inl x"
  shows "slug_from q base = Some (Inl x)"
proof (cases n)
  case 0
  with assms(2) show ?thesis by (simp add: slug_from_def candidate_def)
next
  case (Suc d)
  with assms(1) have "reports_taken q (candidate base 0)" by simp
  then obtain e where e: "getVideoBySlug q (candidate base 0) = Inr e"
    by (auto simp: reports_taken_def split: sum.splits)
  have "slug_loop q base (candidate base 0) e 2 = Some (Inl x)"
    using slug_loop_throw [of q base 0 e d x] e assms Suc by (simp add: numeral_2_eq_2)
  then show ?thesis using e by (simp add: slug_from_def candidate_def)
qed

lemma slug_from_total:
  assumes "finite {s. reports_taken q s}"
  shows "\<exists>r. slug_from q base = Some r"
proof -
  have "\<exists>n. \<not> reports_taken q (candidate base n)"
  proof (rule ccontr)
    assume "\<not> ?thesis"
    then have "range (candidate base) \<subseteq> {s. reports_taken q s}" by auto
    then have "finite (range (candidate base))" using assms by (rule finite_subset)
    moreover have "inj (candidate base)" by (rule injI) (rule candidate_inj)
    ultimately show False using finite_imageD by (metis infinite_UNIV_nat)
  qed
  then obtain n where n: "\<not> reports_taken q (candidate base n)"
    and least: "\<forall>m<n. reports_taken q (candidate base m)"
    using exists_least_iff [of "\<lambda>n. \<not> reports_taken q (candidate base n)"] by auto
  from n consider "getVideoBySlug q (candidate base n) = Inr None"
    | x where "getVideoBySlug q (candidate base n) = Inl x"
    by (auto simp: reports_taken_def split: sum.splits option.splits)
  then show ?thesis
  proof cases
    case 1
    with least show ?thesis by (auto dest: slug_from_free)
  next
    case 2
    with least show ?thesis by (auto dest: slug_from_throw)
  qed
qed

lemma slug_loop_all_taken:
  assumes run: "slug_loop q base s e i = Some y"
  shows "(\<forall>n. reports_taken q (candidate base n)) \<longrightarrow> e \<noteq> None \<longrightarrow> 2 \<le> i \<longrightarrow> False"
proof (rule slug_loop.raw_induct
    [where P = "\<lambda>q base s e i y.
       (\<forall>n. reports_taken q (candidate base n)) \<longrightarrow> e \<noteq> None \<longrightarrow> 2 \<le> i \<longrightarrow> False",
     OF _ run])
  fix f :: "(string \<Rightarrow> video reply) \<Rightarrow> string \<Rightarrow> string \<Rightarrow> video option \<Rightarrow> nat \<Rightarrow> (exn + string) option"
  fix q base s i y and e :: "video option"
  assume IH: "\<And>q base s e i y. f q base s e i = Some y \<Longrightarrow>
      (\<forall>n. reports_taken q (candidate base n)) \<longrightarrow> e \<noteq> None \<longrightarrow> 2 \<le> i \<longrightarrow> False"
  assume step: "(if e \<noteq> None
      then (case getVideoBySlug q (base @ ''-'' @ string_of_nat i) of
              Inl x \<Rightarrow> Some (Inl x)
            | Inr e' \<Rightarrow> f q base (base @ ''-'' @ string_of_nat i) e' (i + 1))
      else Some (Inr s)) = Some y"
  show "(\<forall>n. reports_taken q (candidate base n)) \<longrightarrow> e \<noteq> None \<longrightarrow> 2 \<le> i \<longrightarrow> False"
  proof (intro impI)
    assume all: "\<forall>n. reports_taken q (candidate base n)" and ex: "e \<noteq> None" and i: "2 \<le> i"
    from i have c: "base @ ''-'' @ string_of_nat i = candidate base (i - 1)"
      by (simp add: candidate_def)
    from all have "reports_taken q (candidate base (i - 1))" by blast
    then obtain v where v: "getVideoBySlug q (base @ ''-'' @ string_of_nat i) = Inr (Some v)"
      unfolding c by (auto simp: reports_taken_def split: sum.splits option.splits)
    from step ex v
    have "f q base (base @ ''-'' @ string_of_nat i) (Some v) (i + 1) = Some y" by simp
    from IH [OF this] all i show False by simp
  qed
qed

lemma slug_from_sound:
  assumes "slug_from q base = Some r"
  shows "\<exists>n. (\<forall>m<n. reports_taken q (candidate base m)) \<and>
           (case r of
              Inr s \<Rightarrow> s = candidate base n \<and> getVideoBySlug q s = Inr None
            | Inl x \<Rightarrow> getVideoBySlug q (candidate base n) = Inl x)"
proof (cases "\<exists>n. \<not> reports_taken q (candidate base n)")
  case True
  then obtain n where n: "\<not> reports_taken q (candidate base n)"
    and least: "\<forall>m<n. reports_taken q (candidate base m)"
    using exists_least_iff [of "\<lambda>n. \<not> reports_taken q (candidate base n)"] by auto
  from n consider "getVideoBySlug q (candidate base n) = Inr None"
    | x where "getVideoBySlug q (candidate base n) = Inl x"
    by (auto simp: reports_taken_def split: sum.splits option.splits)
  then show ?thesis
  proof cases
    case 1
    with least assms slug_from_free [of n q base] show ?thesis by auto
  next
    case 2
    with least assms slug_from_throw [of n q base] show ?thesis by auto
  qed
next
  case False
  then have all: "\<forall>n. reports_taken q (candidate base n)" by simp
  then have "reports_taken q (candidate base 0)" by blast
  then obtain v where v: "getVideoBySlug q base = Inr (Some v)"
    by (auto simp: reports_taken_def candidate_def split: sum.splits option.splits)
  with assms have "slug_loop q base base (Some v) 2 = Some r" by (simp add: slug_from_def)
  from slug_loop_all_taken [OF this] all show ?thesis by simp
qed


text \<open>Against the table, only slugs of rows are ever reported taken.\<close>

lemma reports_taken_store:
  "reports_taken (videos_select_slug w st) s \<Longrightarrow> s \<in> set (map slug (rows st))"
  by (auto simp: reports_taken_def getVideoBySlug_def videos_select_slug_def find_Some_iff
      split: fault.splits sum.splits option.splits if_splits)

lemma finite_taken_store: "finite {s. reports_taken (videos_select_slug w st) s}"
proof (rule finite_subset)
  show "{s. reports_taken (videos_select_slug w st) s} \<subseteq> set (map slug (rows st))"
    using reports_taken_store by blast
qed simp

text \<open>
  Claim C1. The slug allocator returns the first unused candidate of the sequence
  \<open>base\<close>, \<open>base-2\<close>, \<open>base-3\<close>, ...: a slug is returned exactly when it is a
  candidate that the lookup reports free while it reports every earlier candidate
  taken. The base is \<open>slugify(title) || "video"\<close> in \<open>server.js\<close> and
  \<open>slugify(title)\<close> in the second variant. In particular, when \<open>base\<close> and
  \<open>base-2\<close> are reported taken and \<open>base-3\<close> free, the result is \<open>base-3\<close>.
\<close>

theorem slug_first_unused:
  "(allocate_slug slugify' q t = Some (Inr s) \<longleftrightarrow>
      (\<exists>n. s = candidate (if slugify' t \<noteq> [] then slugify' t else ''video'') n
          \<and> (\<forall>m<n. reports_taken q (candidate (if slugify' t \<noteq> [] then slugify' t else ''video'') m))
          \<and> getVideoBySlug q s = Inr None))
   \<and> (allocate_slug_part000 slugify' q t = Some (Inr s) \<longleftrightarrow>
      (\<exists>n. s = candidate (slugify' t) n
          \<and> (\<forall>m<n. reports_taken q (candidate (slugify' t) m))
          \<and> getVideoBySlug q s = Inr None))
   \<and> ((if slugify' t \<noteq> [] then slugify' t else ''video'') = base
        \<and> reports_taken q base \<and> reports_taken q (base @ ''-2'')
        \<and> getVideoBySlug q (base @ ''-3'') = Inr None
        \<longrightarrow> allocate_slug slugify' q t = Some (Inr (base @ ''-3'')))
   \<and> (slugify' t = base
        \<and> reports_taken q base \<and> reports_taken q (base @ ''-2'')
        \<and> getVideoBySlug q (base @ ''-3'') = Inr None
        \<longrightarrow> allocate_slug_part000 slugify' q t = Some (Inr (base @ ''-3'')))"
proof -
  have iff: "slug_from q b = Some (Inr s) \<longleftrightarrow>
      (\<exists>n. s = candidate b n \<and> (\<forall>m<n. reports_taken q (candidate b m))
          \<and> getVideoBySlug q s = Inr None)" for b
  proof
    assume "slug_from q b = Some (Inr s)"
    from slug_from_sound [OF this] show "\<exists>n. s = candidate b n
        \<and> (\<forall>m<n. reports_taken q (candidate b m)) \<and> getVideoBySlug q s = Inr None"
      by auto
  next
    assume "\<exists>n. s = candidate b n \<and> (\<forall>m<n. reports_taken q (candidate b m))
        \<and> getVideoBySlug q s = Inr None"
    then show "slug_from q b = Some (Inr s)" using slug_from_free by blast
  qed
  have three: "slug_from q base = Some (Inr (base @ ''-3''))"
    if "reports_taken q base" "reports_taken q (base @ ''-2'')"
      "getVideoBySlug q (base @ ''-3'') = Inr None"
  proof -
    have c: "candidate base 0 = base" "candidate base 1 = base @ ''-2''"
      "candidate base 2 = base @ ''-3''"
      by (simp_all add: candidate_def string_of_nat.simps digit_char_def)
    have "\<forall>m<2. reports_taken q (candidate base m)"
    proof (intro allI impI)
      fix m :: nat assume "m < 2"
      then have "m = 0 \<or> m = 1" by arith
      then show "reports_taken q (candidate base m)" using that c by auto
    qed
    from slug_from_free [OF this] that(3) c show ?thesis by simp
  qed
  show ?thesis
    unfolding allocate_slug_def allocate_slug_part000_def using iff three by blast
qed

theorem slug_first_unused_witness:
  "reports_taken example_lookup ''my-trailer''
   \<and> reports_taken example_lookup ''my-trailer-2''
   \<and> getVideoBySlug example_lookup ''my-trailer-3'' = Inr None
   \<and> allocate_slug (slugify example_world) example_lookup ''my trailer''
       = Some (Inr ''my-trailer-3'')"
  using slug_first_unused [where slugify' = "slugify example_world" and q = example_lookup
      and t = "''my trailer''" and base = "''my-trailer''"]
  by (simp add: reports_taken_def getVideoBySlug_def)

text \<open>
  Claim C10. The slug allocation loop terminates for every title and every lookup that
  reports only finitely many slugs taken: the candidates are pairwise different, so one
  of them is not reported taken, and the loop stops there at the latest (with the slug,
  or with the exception the lookup throws). A lookup against the table is such a lookup:
  it reports only slugs of rows taken.
\<close>

theorem slug_loop_terminates:
  assumes "finite {s. reports_taken q s}"
  shows "(\<exists>r. allocate_slug slugify' q t = Some r)
       \<and> (\<exists>r. allocate_slug_part000 slugify' q t = Some r)
       \<and> finite {s. reports_taken (videos_select_slug w st) s}"
  unfolding allocate_slug_def allocate_slug_part000_def
  using slug_from_total [OF assms] finite_taken_store by blast

theorem slug_loop_terminates_witness:
  "finite {s. reports_taken example_lookup s}
   \<and> (\<exists>r. allocate_slug (slugify example_world) example_lookup ''my trailer'' = Some r)"
proof -
  have f: "finite {s. reports_taken example_lookup s}"
    by (rule finite_subset [of _ "{''my-trailer'', ''my-trailer-2''}"])
       (auto simp: reports_taken_def getVideoBySlug_def split: if_splits)
  from slug_loop_terminates [OF f] f show ?thesis by blast
qed

text \<open>
  Claim C3, on the second variant (\<open>src/unnamed/part_000\<close>): a title that
  \<open>slugify\<close> turns into the empty string gets the empty slug when no row has it, not
  \<open>video\<close>.
\<close>

theorem part000_empty_slug:
  assumes "slugify' t = []" and "getVideoBySlug q [] = Inr None"
  shows "allocate_slug_part000 slugify' q t = Some (Inr [])"
  using slug_from_free [of 0 q "[]"] assms
  by (simp add: allocate_slug_part000_def candidate_def)

theorem part000_empty_slug_witness:
  "allocate_slug_part000 (\<lambda>t. []) (\<lambda>s. Resolved None None) ''!!!'' = Some (Inr [])"
  using part000_empty_slug [of "\<lambda>t. []" "''!!!''" "\<lambda>s. Resolved None None"]
  by (simp add: getVideoBySlug_def)

text \<open>
  \<open>server.js\<close> has the fallback: its slug is never empty, and for such a title it is
  \<open>video\<close>, \<open>video-2\<close>, ...
\<close>

lemma allocate_slug_never_empty:
  assumes "allocate_slug slugify' q t = Some (Inr s)"
  shows "s \<noteq> []"
    and "slugify' t = [] \<Longrightarrow> \<exists>n. s = candidate ''video'' n"
proof -
  have "slug_from q (if slugify' t \<noteq> [] then slugify' t else ''video'') = Some (Inr s)"
    using assms by (simp add: allocate_slug_def)
  from slug_from_sound [OF this] obtain n where
    n: "s = candidate (if slugify' t \<noteq> [] then slugify' t else ''video'') n"
    by auto
  then show "s \<noteq> []" by (simp add: candidate_def)
  show "\<exists>n. s = candidate ''video'' n" if "slugify' t = []" using n that by auto
qed

section \<open>Evaluation on concrete inputs\<close>

text \<open>The strings the examples trim.\<close>

lemma trim_examples:
  "trim [] = []"
  "trim ''secret'' = ''secret''"
  "trim ''wrong'' = ''wrong''"
  "trim ''a'' = ''a''"
  "trim ''localhost,*.example.com'' = ''localhost,*.example.com''"
  "trim ''localhost'' = ''localhost''"
  "trim ''*.example.com'' = ''*.example.com''"
  by (simp_all add: trim_def white_space_def strip_leading.simps)

lemmas eval_strings =
  trim_examples toLowerCase_def lower_char_def or_else_def
  or_str_def truthy_def js_or_def to_String_def supplied_key_def
  startsWith_def endsWith_def error_text_def digit_char_def string_of_nat.simps

lemmas eval_app =
  app_def routes_def host_filter_def allow_list_def allowHost_def effective_host_def
  checkAdmin_def admin_upload_def upload_single_def fileFilter_def fileSize_limit_def
  upload_try_def admin_delete_def Let_def

lemma slug_loop_stop: "slug_loop q base s None i = Some (Inr s)"
  by (subst slug_loop.simps) simp

lemma slug_loop_step:
  "slug_loop q base s (Some v) i =
     (case getVideoBySlug q (base @ ''-'' @ string_of_nat i) of
        Inl x \<Rightarrow> Some (Inl x)
      | Inr e \<Rightarrow> slug_loop q base (base @ ''-'' @ string_of_nat i) e (i + 1))"
  by (subst slug_loop.simps) simp

lemmas eval_slug =
  allocate_slug_def slug_from_def slug_loop_stop slug_loop_step getVideoBySlug_def
  videos_select_slug_def videos_insert_def videos_delete_def storage_upload_def
  storage_remove_def insertVideo_def deleteVideoBySlug_def


section \<open>Guards\<close>

lemma supplied_key_cases:
  "(\<exists>s. supplied_key req = Str s) \<or> (\<exists>r. supplied_key req = NonString True r)"
  by (cases "query_key req"; cases "body_key (body req)"; cases "x_admin_key req")
     (auto simp: supplied_key_def js_or_def truthy_def)


text \<open>
  A truthy value that is not a string never passes and is not answered by the guard
  itself: the \<open>TypeError\<close> goes to the framework's error handling.
\<close>

lemma checkAdmin_non_string:
  "supplied_key req = NonString t r \<Longrightarrow>
   checkAdmin k req = Some (ErrorHandler (Exn ''TypeError'' ''trim is not a function''))"
  by (simp add: checkAdmin_def)

lemma host_filter_denied:
  "host_filter cfg req = Some r \<Longrightarrow> r = Send 403 ''Forbidden host''"
  by (auto simp: host_filter_def Let_def split: if_splits)

lemma js_split_nonempty: "js_split c s \<noteq> []"
  by (induction s) (auto split: list.splits)

lemma hd_js_split: "hd (js_split c s) = takeWhile (\<lambda>x. x \<noteq> c) s"
  by (induction s) (auto split: list.splits simp: js_split_nonempty)

lemma endsWith_iff: "endsWith h p \<longleftrightarrow> (\<exists>pre. h = pre @ p)"
proof
  assume "endsWith h p"
  then have "h = take (length h - length p) h @ p"
    by (metis append_take_drop_id endsWith_def)
  then show "\<exists>pre. h = pre @ p" ..
next
  assume "\<exists>pre. h = pre @ p"
  then show "endsWith h p" by (auto simp: endsWith_def)
qed

lemma startsWith_iff: "startsWith p ''*.'' \<longleftrightarrow> (\<exists>suffix. p = ''*.'' @ suffix)"
proof
  assume "startsWith p ''*.''"
  then have "p = ''*.'' @ drop 2 p"
    by (metis append_take_drop_id startsWith_def length_Cons list.size(3) numeral_2_eq_2)
  then show "\<exists>suffix. p = ''*.'' @ suffix" ..
next
  assume "\<exists>suffix. p = ''*.'' @ suffix"
  then show "startsWith p ''*.''" by (auto simp: startsWith_def)
qed

lemma allowHost_iff:
  "allowHost ALLOW h \<longleftrightarrow>
     (\<exists>p \<in> set ALLOW.
        (\<exists>suffix. p = ''*.'' @ suffix \<and> (\<exists>pre. h = pre @ ''.'' @ suffix))
        \<or> ((\<nexists>suffix. p = ''*.'' @ suffix) \<and> h = p))"
proof -
  have "(if startsWith p ''*.'' then endsWith h (drop 1 p) else h = p) \<longleftrightarrow>
        ((\<exists>suffix. p = ''*.'' @ suffix \<and> (\<exists>pre. h = pre @ ''.'' @ suffix))
        \<or> ((\<nexists>suffix. p = ''*.'' @ suffix) \<and> h = p))" for p
  proof (cases "startsWith p ''*.''")
    case True
    then obtain suffix where p: "p = ''*.'' @ suffix" using startsWith_iff by blast
    then have "drop 1 p = ''.'' @ suffix" by simp
    with True p show ?thesis by (auto simp: endsWith_iff)
  next
    case False
    then show ?thesis using startsWith_iff by auto
  qed
  then show ?thesis by (simp add: allowHost_def list_ex_iff)
qed


lemma host_redirect_part000_iff:
  "host_redirect_part000 req = None \<longleftrightarrow> effective_host req \<in> set ALLOWED_part000"
  by (simp add: host_redirect_part000_def)

section \<open>How requests change the table\<close>

lemma storage_upload_rows:
  "storage_upload w st p b c = (a, st1) \<Longrightarrow> rows st1 = rows st"
  by (auto simp: storage_upload_def split: fault.splits)

lemma storage_remove_rows:
  "storage_remove w st p = (a, st1) \<Longrightarrow> rows st1 = rows st"
  by (auto simp: storage_remove_def split: fault.splits)

lemma videos_insert_rows:
  assumes "videos_insert w st r = (a, st2)"
  shows "rows st2 = rows st
       \<or> ((\<exists>v. rows st2 = rows st @ [v] \<and> slug v = slug r)
           \<and> slug r \<notin> set (map slug (rows st)))"
  using assms by (auto simp: videos_insert_def split: fault.splits if_splits)

lemma videos_delete_rows:
  assumes "videos_delete w st s = (a, st1)"
  shows "rows st1 = rows st \<or> rows st1 = filter (\<lambda>v. slug v \<noteq> s) (rows st)"
  using assms by (auto simp: videos_delete_def split: fault.splits list.splits)

lemma upload_try_rows:
  assumes "upload_try w st b file = Some (res, st')"
  shows "rows st' = rows st
       \<or> (\<exists>v t. rows st' = rows st @ [v] \<and> body_title b = Some t
              \<and> allocate_slug (slugify w) (videos_select_slug w st) t = Some (Inr (slug v))
              \<and> slug v \<notin> set (map slug (rows st)))"
proof (cases "body_title b")
  case None
  with assms show ?thesis by (simp add: upload_try_def)
next
  case (Some t)
  note t = this
  show ?thesis
  proof (cases "file")
    case None
    with assms t show ?thesis by (simp add: upload_try_def)
  next
    case (Some f)
    note f = this
    show ?thesis
    proof (cases "t = []")
      case True
      with assms t f show ?thesis by (simp add: upload_try_def)
    next
      case False
      note ne = this
      show ?thesis
      proof (cases "allocate_slug (slugify w) (videos_select_slug w st) t")
        case None
        with assms t f ne show ?thesis by (simp add: upload_try_def)
      next
        case (Some r)
        show ?thesis
        proof (cases r)
          case (Inl x)
          with assms t f ne Some show ?thesis by (simp add: upload_try_def)
        next
          case (Inr s)
          note s = Some [unfolded Inr]
          define filePath where "filePath = ''trailers/'' @ string_of_nat (now w) @ ''_'' @ s @ ''.''
              @ or_str (mime_extension w (mimetype f)) ''mp4''"
          show ?thesis
          proof (cases "read_tmp w")
            case (Some x)
            with assms t f ne s show ?thesis by (simp add: upload_try_def Let_def)
          next
            case None
            note rd = this
            obtain a st1 where up: "storage_upload w st filePath (content f) (mimetype f) = (a, st1)"
              by (cases "storage_upload w st filePath (content f) (mimetype f)")
            have r1: "rows st1 = rows st" using up by (rule storage_upload_rows)
            show ?thesis
            proof (cases "\<exists>d. a = Resolved d None")
              case False
              then have "st' = st1"
                using assms t f ne s rd up
                by (cases a) (auto simp: upload_try_def Let_def filePath_def split: option.splits)
              with r1 show ?thesis by simp
            next
              case True
              then obtain d where a: "a = Resolved d None" ..
              define r where "r = \<lparr>slug = s, title = trim t,
                  description = trim (or_str (body_description b) []),
                  file_path = filePath, url = public_url w filePath,
                  fullUrl = trim (or_str (body_fullUrl b) [])\<rparr>"
              obtain a2 st2 where ins: "videos_insert w st1 r = (a2, st2)"
                by (cases "videos_insert w st1 r")
              have "st' = st2"
                using assms t f ne s rd up a ins
                by (auto simp: upload_try_def Let_def filePath_def r_def split: sum.splits)
              moreover have "slug r = s" by (simp add: r_def)
              ultimately show ?thesis using videos_insert_rows [OF ins] r1 s t by auto
            qed
          qed
        qed
      qed
    qed
  qed
qed


lemma admin_delete_rows:
  assumes "admin_delete w st req s = (r, st')"
  shows "rows st' = rows st \<or> rows st' = filter (\<lambda>v. slug v \<noteq> s) (rows st)"
proof -
  obtain a st1 where d: "videos_delete w st s = (a, st1)" by (cases "videos_delete w st s")
  have "rows st' = rows st1"
    using assms d
    by (auto simp: admin_delete_def Let_def split: sum.splits option.splits if_splits
        prod.splits reply.splits dest: storage_remove_rows)
  with videos_delete_rows [OF d] show ?thesis by simp
qed

lemma allocate_fresh:
  assumes "allocate_slug sf (videos_select_slug w st) t = Some (Inr s)"
    and "\<forall>e. fault w (SelectSlug s) \<noteq> ErrorReply e"
  shows "s \<notin> set (map slug (rows st))"
proof -
  have "slug_from (videos_select_slug w st) (if sf t \<noteq> [] then sf t else ''video'') = Some (Inr s)"
    using assms(1) by (simp add: allocate_slug_def)
  from slug_from_sound [OF this]
  have "getVideoBySlug (videos_select_slug w st) s = Inr None" by auto
  with assms(2) have "find (\<lambda>v. slug v = s) (rows st) = None"
    by (auto simp: getVideoBySlug_def videos_select_slug_def split: fault.splits if_splits)
  then show ?thesis by (auto simp: find_None_iff)
qed

lemma upload_try_distinct:
  assumes "upload_try w st b file = Some (res, st')"
    and "distinct (map slug (rows st))"
  shows "distinct (map slug (rows st'))"
proof -
  from upload_try_rows [OF assms(1)] consider "rows st' = rows st"
    | v where "rows st' = rows st @ [v]" "slug v \<notin> set (map slug (rows st))"
    by blast
  then show ?thesis
  proof cases
    case 1
    with assms(2) show ?thesis by simp
  next
    case 2
    with assms(2) show ?thesis by simp
  qed
qed

lemma upload_try_total: "\<exists>r. upload_try w st b file = Some r"
proof -
  have tot: "allocate_slug (slugify w) (videos_select_slug w st) t = None \<Longrightarrow> False" for t
  proof -
    assume n: "allocate_slug (slugify w) (videos_select_slug w st) t = None"
    obtain r where "slug_from (videos_select_slug w st)
        (if slugify w t \<noteq> [] then slugify w t else ''video'') = Some r"
      using slug_from_total [OF finite_taken_store] by blast
    with n show False by (simp add: allocate_slug_def)
  qed
  show ?thesis
    by (auto simp: upload_try_def Let_def
        split: option.splits sum.splits prod.splits reply.splits dest: tot)
qed

lemma admin_upload_total: "\<exists>r. admin_upload w st req = Some r"
proof (cases "upload_single req")
  case (Inl e)
  then show ?thesis by (simp add: admin_upload_def)
next
  case (Inr p)
  obtain b fl where p: "p = (b, fl)" by (cases p)
  obtain res st' where "upload_try w st b fl = Some (res, st')"
    using upload_try_total [of w st b fl] by auto
  with Inr p show ?thesis by (cases res) (simp_all add: admin_upload_def)
qed

lemma admin_upload_store:
  assumes "admin_upload w st req = Some (r, st')"
  shows "st' = st \<or> (\<exists>b fl res. upload_try w st b fl = Some (res, st'))"
  using assms by (auto simp: admin_upload_def split: sum.splits prod.splits option.splits)

lemma app_total: "\<exists>r. app cfg w st req = Some r"
  using admin_upload_total
  by (auto simp: app_def routes_def split: option.splits route.splits)

lemma app_rows:
  assumes "app cfg w st req = Some (r, st')"
  shows "rows st' = rows st \<or> (\<exists>v. rows st' = rows st @ [v])
       \<or> (\<exists>s. rows st' = filter (\<lambda>v. slug v \<noteq> s) (rows st))"
proof (cases "host_filter cfg req")
  case (Some r')
  with assms show ?thesis by (simp add: app_def)
next
  case None
  with assms have rt: "routes cfg w st req = Some (r, st')" by (simp add: app_def)
  show ?thesis
  proof (cases "route req")
    case AdminUpload
    show ?thesis
    proof (cases "checkAdmin (ADMIN_KEY cfg) req")
      case (Some r')
      with rt AdminUpload show ?thesis by (simp add: routes_def)
    next
      case None
      with rt AdminUpload have "admin_upload w st req = Some (r, st')" by (simp add: routes_def)
      from admin_upload_store [OF this] upload_try_rows show ?thesis by blast
    qed
  next
    case (AdminDelete s)
    show ?thesis
    proof (cases "checkAdmin (ADMIN_KEY cfg) req")
      case (Some r')
      with rt AdminDelete show ?thesis by (simp add: routes_def)
    next
      case None
      with rt AdminDelete have "admin_delete w st req s = (r, st')" by (simp add: routes_def)
      from admin_delete_rows [OF this] show ?thesis by blast
    qed
  qed (use rt in \<open>auto simp: routes_def split: option.splits\<close>)
qed

lemma app_distinct:
  assumes "app cfg w st req = Some (r, st')"
    and "distinct (map slug (rows st))"
  shows "distinct (map slug (rows st'))"
proof (cases "route req = AdminUpload \<and> host_filter cfg req = None
    \<and> checkAdmin (ADMIN_KEY cfg) req = None")
  case True
  with assms(1) have "admin_upload w st req = Some (r, st')" by (simp add: app_def routes_def)
  from admin_upload_store [OF this] upload_try_distinct assms(2) show ?thesis by blast
next
  case False
  have "rows st' = rows st \<or> (\<exists>s. rows st' = filter (\<lambda>v. slug v \<noteq> s) (rows st))"
  proof (cases "host_filter cfg req")
    case (Some r')
    with assms(1) show ?thesis by (simp add: app_def)
  next
    case None
    with assms(1) have rt: "routes cfg w st req = Some (r, st')" by (simp add: app_def)
    show ?thesis
    proof (cases "route req")
      case AdminUpload
      with False None obtain r' where "checkAdmin (ADMIN_KEY cfg) req = Some r'" by auto
      with rt AdminUpload show ?thesis by (simp add: routes_def)
    next
      case (AdminDelete s)
      show ?thesis
      proof (cases "checkAdmin (ADMIN_KEY cfg) req")
        case (Some r')
        with rt AdminDelete show ?thesis by (simp add: routes_def)
      next
        case None
        with rt AdminDelete have "admin_delete w st req s = (r, st')" by (simp add: routes_def)
        from admin_delete_rows [OF this] show ?thesis by blast
      qed
    qed (use rt in \<open>auto simp: routes_def split: option.splits\<close>)
  qed
  with assms(2) show ?thesis by (auto simp: distinct_map_filter)
qed

lemma run_distinct:
  assumes "distinct (map slug (rows st))"
  shows "\<exists>st'. run cfg st ops = Some st' \<and> distinct (map slug (rows st'))"
  using assms
proof (induction ops arbitrary: st)
  case Nil
  then show ?case by simp
next
  case (Cons a ops)
  obtain w req where a: "a = (w, req)" by (cases a)
  obtain r st1 where step: "app cfg w st req = Some (r, st1)"
    using app_total [of cfg w st req] by auto
  from app_distinct [OF step Cons.prems] have "distinct (map slug (rows st1))" .
  then obtain st' where "run cfg st1 ops = Some st'" "distinct (map slug (rows st'))"
    using Cons.IH by blast
  with step a show ?case by simp
qed

section \<open>The guards and the database helpers\<close>




text \<open>
  Claim C8. With a non-blank \<open>ALLOWED_HOSTS\<close>, the filter takes the forwarded host
  when present (and not empty), otherwise the \<open>Host\<close> header, cuts it at the first
  colon and lower-cases it; the request passes exactly when some configured pattern
  matches, a pattern \<open>*.suffix\<close> matching the hosts that end in \<open>.suffix\<close> and any
  other pattern matching by equality; the patterns are the trimmed, lower-cased,
  non-empty items of the comma-separated list; a request that does not pass gets 403
  whatever its route.
\<close>

theorem host_allow_list:
  assumes "trim (or_str (ALLOWED_HOSTS cfg) []) \<noteq> []"
  shows
   "effective_host req =
      toLowerCase (takeWhile (\<lambda>c. c \<noteq> CHR '':'')
        (case x_forwarded_host req of
           Some (a # as) \<Rightarrow> a # as
         | _ \<Rightarrow> (case host req of Some h \<Rightarrow> h | None \<Rightarrow> [])))
    \<and> (host_filter cfg req = None \<longleftrightarrow>
         (\<exists>p \<in> set (allow_list (trim (or_str (ALLOWED_HOSTS cfg) []))).
            (\<exists>suffix. p = ''*.'' @ suffix \<and> (\<exists>pre. effective_host req = pre @ ''.'' @ suffix))
            \<or> ((\<nexists>suffix. p = ''*.'' @ suffix) \<and> effective_host req = p)))
    \<and> set (allow_list raw) = (\<lambda>x. toLowerCase (trim x)) ` set (js_split CHR '','' raw) - {[]}
    \<and> (host_filter cfg req \<noteq> None \<longrightarrow> app cfg w st req = Some (Send 403 ''Forbidden host'', st))
    \<and> allowHost [''*.example.com''] ''cdn.example.com''
    \<and> \<not> allowHost [''example.com''] ''evil.com''"
proof -
  have l: "set (allow_list raw) = (\<lambda>x. toLowerCase (trim x)) ` set (js_split CHR '','' raw) - {[]}"
    by (auto simp: allow_list_def)
  have a: "effective_host req =
      toLowerCase (takeWhile (\<lambda>c. c \<noteq> CHR '':'')
        (case x_forwarded_host req of
           Some (a # as) \<Rightarrow> a # as
         | _ \<Rightarrow> (case host req of Some h \<Rightarrow> h | None \<Rightarrow> [])))"
    by (simp add: effective_host_def hd_js_split or_str_def or_else_def
        split: option.splits list.splits)
  have b: "host_filter cfg req = None \<longleftrightarrow>
      allowHost (allow_list (trim (or_str (ALLOWED_HOSTS cfg) []))) (effective_host req)"
    using assms by (simp add: host_filter_def Let_def)
  have c: "app cfg w st req = Some (Send 403 ''Forbidden host'', st)"
    if "host_filter cfg req \<noteq> None"
  proof -
    from that obtain r where r: "host_filter cfg req = Some r" by blast
    from host_filter_denied [OF r] r show ?thesis by (simp add: app_def)
  qed
  have d: "allowHost [''*.example.com''] ''cdn.example.com''"
    "\<not> allowHost [''example.com''] ''evil.com''"
    by (simp_all add: allowHost_def startsWith_def endsWith_def)
  show ?thesis using a b c d l unfolding allowHost_iff by blast
qed


theorem host_allow_list_witness:
  "trim (or_str (ALLOWED_HOSTS example_config) []) \<noteq> []
   \<and> host_filter example_config
        (example_request\<lparr>x_forwarded_host := Some ''CDN.Example.com:8080''\<rparr>) = None
   \<and> app example_config example_world example_store
        (example_request\<lparr>host := Some ''evil.com''\<rparr>)
       = Some (Send 403 ''Forbidden host'', example_store)"
  using host_allow_list [where cfg = example_config and w = example_world
      and st = example_store and req = "example_request\<lparr>host := Some ''evil.com''\<rparr>"]
  by (simp add: eval_app eval_strings)

text \<open>
  Claim C4, as amended. For a slug that no row has, \<open>getVideoBySlug\<close> returns absent
  (unless the client's promise rejects), and it never returns an error value: a query
  that resolves with an error is returned as absent too. Only a rejected promise
  surfaces, as an exception.
\<close>

theorem getVideoBySlug_absent:
  "(s \<notin> set (map slug (rows st)) \<and> (\<forall>x. fault w (SelectSlug s) \<noteq> Throws x)
      \<longrightarrow> getVideoBySlug (videos_select_slug w st) s = Inr None)
   \<and> (q s = Resolved d (Some e) \<longrightarrow> getVideoBySlug q s = Inr None)
   \<and> (getVideoBySlug q s = Inl x \<longleftrightarrow> q s = Rejected x)"
proof -
  have "find (\<lambda>v. slug v = s) (rows st) = None" if "s \<notin> set (map slug (rows st))"
    using that by (auto simp: find_None_iff)
  then have a: "s \<notin> set (map slug (rows st)) \<and> (\<forall>x. fault w (SelectSlug s) \<noteq> Throws x)
      \<longrightarrow> getVideoBySlug (videos_select_slug w st) s = Inr None"
    by (auto simp: getVideoBySlug_def videos_select_slug_def split: fault.splits)
  have b: "q s = Resolved d (Some e) \<longrightarrow> getVideoBySlug q s = Inr None"
    by (simp add: getVideoBySlug_def)
  have c: "getVideoBySlug q s = Inl x \<longleftrightarrow> q s = Rejected x"
    by (auto simp: getVideoBySlug_def split: reply.splits)
  from a b c show ?thesis by blast
qed

theorem getVideoBySlug_absent_witness:
  "''zzz'' \<notin> set (map slug (rows example_store))
   \<and> getVideoBySlug (videos_select_slug example_world example_store) ''zzz'' = Inr None"
  using getVideoBySlug_absent [where s = "''zzz''" and st = example_store and w = example_world]
  by simp

text \<open>
  The claim as stated fails: a failed query and a missing row give the same result.
\<close>

theorem getVideoBySlug_absent_counterexample:
  "getVideoBySlug (\<lambda>s. Resolved None (Some (Exn ''FetchError'' ''fetch failed''))) ''a''
     = getVideoBySlug (\<lambda>s. Resolved None None) ''a''"
  by (simp add: getVideoBySlug_def)


text \<open>
  Claim C7, on \<open>server.js\<close>: when the query ordered by \<open>created_at\<close> resolves
  without data (the client reports a failed query as \<open>{ data: null, error }\<close>), the
  result is the empty list and the query ordered by \<open>id\<close> is never made.
\<close>

theorem readVideos_no_fallback:
  assumes "q ''created_at'' = Resolved None e"
  shows "readVideos q = Inr []"
  using assms by (simp add: readVideos_def)

theorem readVideos_no_fallback_witness:
  "readVideos (\<lambda>c. if c = ''created_at''
           then Resolved None (Some (Exn ''PostgrestError'' ''column videos.created_at does not exist''))
           else Resolved (Some [example_row]) None) = Inr []
   \<and> readVideos_part000
        (\<lambda>c. if c = ''createdAt''
           then Resolved None (Some (Exn ''PostgrestError'' ''column videos.createdAt does not exist''))
           else Resolved (Some [example_row]) None) = Inr [example_row]"
  using readVideos_no_fallback [of "(\<lambda>c. if c = ''created_at''
           then Resolved None (Some (Exn ''PostgrestError'' ''column videos.created_at does not exist''))
           else Resolved (Some [example_row]) None)"]
  by (simp add: readVideos_part000_def)

text \<open>
  The \<open>catch\<close> block of \<open>server.js\<close> runs only when the promise rejects; the second
  variant reads \<open>error\<close> from the resolved value and does fall back.
\<close>

lemma readVideos_catch:
  "q ''created_at'' = Rejected x \<Longrightarrow> q ''id'' = Resolved (Some vs) e \<Longrightarrow> readVideos q = Inr vs"
  by (simp add: readVideos_def)

lemma readVideos_part000_rejected:
  "q ''createdAt'' = Rejected x \<Longrightarrow> readVideos_part000 q = Inl x"
  by (simp add: readVideos_part000_def)

lemma readVideos_part000_fallback:
  assumes "q ''createdAt'' = Resolved d (Some e)" and "q ''id'' = Resolved (Some vs) None"
  shows "readVideos_part000 q = Inr vs"
  using assms by (simp add: readVideos_part000_def split: option.splits)

section \<open>Upload, deletion and the table\<close>

text \<open>
  Claim C5, as amended. After the guard, a file part whose declared type is not one of
  \<open>video/mp4\<close>, \<open>video/webm\<close>, \<open>video/ogg\<close>, or that is larger than 300 MiB, is
  refused by the upload middleware: the error goes to the framework's error handling
  (not to the handler's 400 response), whatever the world and the store are, and the
  store is unchanged. A request that passes the middleware with no file part or with a
  missing or empty title is answered 400 with the message of the handler, again with the
  store unchanged.
\<close>

theorem upload_validation:
  "(multipart req = Some (b, Some f)
      \<and> mimetype f \<notin> set [''video/mp4'', ''video/webm'', ''video/ogg'']
      \<longrightarrow> admin_upload w st req
            = Some (ErrorHandler (Exn ''Error'' ''Format video harus mp4/webm/ogg''), st))
   \<and> (multipart req = Some (b, Some f)
      \<and> mimetype f \<in> set [''video/mp4'', ''video/webm'', ''video/ogg'']
      \<and> 300 * 1024 * 1024 < fsize f
      \<longrightarrow> admin_upload w st req
            = Some (ErrorHandler (Exn ''MulterError'' ''File too large''), st))
   \<and> (upload_single req = Inr (b, fl)
      \<and> (fl = None \<or> body_title b = None \<or> body_title b = Some [])
      \<longrightarrow> admin_upload w st req = Some (Send 400 ''Judul & file wajib.'', st))
   \<and> (host_filter cfg req = None \<and> checkAdmin (ADMIN_KEY cfg) req = None
      \<and> route req = AdminUpload
      \<longrightarrow> app cfg w st req = admin_upload w st req)"
proof -
  have a: "admin_upload w st req
            = Some (ErrorHandler (Exn ''Error'' ''Format video harus mp4/webm/ogg''), st)"
    if "multipart req = Some (b, Some f)"
      "mimetype f \<notin> set [''video/mp4'', ''video/webm'', ''video/ogg'']"
    using that by (simp add: admin_upload_def upload_single_def fileFilter_def)
  have b: "admin_upload w st req
            = Some (ErrorHandler (Exn ''MulterError'' ''File too large''), st)"
    if "multipart req = Some (b, Some f)"
      "mimetype f \<in> set [''video/mp4'', ''video/webm'', ''video/ogg'']"
      "300 * 1024 * 1024 < fsize f"
    using that
    by (simp add: admin_upload_def upload_single_def fileFilter_def fileSize_limit_def)
  have c: "admin_upload w st req = Some (Send 400 ''Judul & file wajib.'', st)"
    if "upload_single req = Inr (b, fl)"
      "fl = None \<or> body_title b = None \<or> body_title b = Some []"
    using that
    by (auto simp: admin_upload_def upload_try_def error_text_def split: option.splits)
  have d: "app cfg w st req = admin_upload w st req"
    if "host_filter cfg req = None" "checkAdmin (ADMIN_KEY cfg) req = None"
      "route req = AdminUpload"
    using that by (simp add: app_def routes_def)
  from a b c d show ?thesis by blast
qed

theorem upload_validation_witness:
  "multipart (example_upload [] ''video/mp4'')
     = Some (\<lparr>body_key = Undefined, body_title = Some [], body_description = None,
               body_fullUrl = None\<rparr>,
             Some \<lparr>mimetype = ''video/mp4'', fsize = 3, content = ''abc''\<rparr>)
   \<and> app example_config example_world example_store (example_upload [] ''video/mp4'')
       = Some (Send 400 ''Judul & file wajib.'', example_store)"
  using upload_validation [where cfg = example_config and w = example_world
      and st = example_store and req = "example_upload [] ''video/mp4''"
      and b = "\<lparr>body_key = Undefined, body_title = Some [], body_description = None,
               body_fullUrl = None\<rparr>"
      and fl = "Some \<lparr>mimetype = ''video/mp4'', fsize = 3, content = ''abc''\<rparr>"]
  by (simp add: eval_app eval_strings)

text \<open>
  The claim as stated fails: an authorised upload of an \<open>image/png\<close> file does not get
  the handler's 400 response; the error of \<open>fileFilter\<close> goes to the framework.
\<close>

theorem upload_validation_counterexample:
  "app example_config example_world example_store (example_upload ''a'' ''image/png'')
   = Some (ErrorHandler (Exn ''Error'' ''Format video harus mp4/webm/ogg''), example_store)"
  by (simp add: eval_app eval_strings)

text \<open>
  Claim C6. Deleting a slug that one row has: when the row delete succeeds, the answer is
  the redirect and the row is gone, whether the removal of the blob succeeds, resolves
  with an error or throws; when the removal fails the blob stays. The row goes first:
  when the row delete fails, the answer is 400 and nothing is removed.
\<close>

theorem delete_best_effort:
  assumes "filter (\<lambda>v. slug v = s) (rows st) = [v]"
  shows
   "(fault w (DeleteSlug s) = NoFault \<longrightarrow>
       (\<exists>st'. admin_delete w st req s
                = (Redirect 302
                     (''/admin?key='' @
                      encodeURIComponent w
                        (to_String (js_or (js_or (query_key req) (body_key (body req))) (Str [])))),
                   st')
            \<and> rows st' = filter (\<lambda>v. slug v \<noteq> s) (rows st)
            \<and> (fault w (StorageRemove (file_path v)) \<noteq> NoFault \<longrightarrow> blobs st' = blobs st)
            \<and> (fault w (StorageRemove (file_path v)) = NoFault \<and> file_path v \<noteq> []
                 \<longrightarrow> blobs st' = (blobs st)(file_path v := None))))
    \<and> (fault w (DeleteSlug s) \<noteq> NoFault \<longrightarrow>
          admin_delete w st req s = (Send 400 ''Gagal hapus'', st))
    \<and> (host_filter cfg req = None \<and> checkAdmin (ADMIN_KEY cfg) req = None
          \<and> route req = AdminDelete s
          \<longrightarrow> app cfg w st req = Some (admin_delete w st req s))"
proof -
  have ok: "\<exists>st'. admin_delete w st req s
                = (Redirect 302
                     (''/admin?key='' @
                      encodeURIComponent w
                        (to_String (js_or (js_or (query_key req) (body_key (body req))) (Str [])))),
                   st')
            \<and> rows st' = filter (\<lambda>v. slug v \<noteq> s) (rows st)
            \<and> (fault w (StorageRemove (file_path v)) \<noteq> NoFault \<longrightarrow> blobs st' = blobs st)
            \<and> (fault w (StorageRemove (file_path v)) = NoFault \<and> file_path v \<noteq> []
                 \<longrightarrow> blobs st' = (blobs st)(file_path v := None))"
    if nf: "fault w (DeleteSlug s) = NoFault"
  proof -
    have d: "videos_delete w st s
        = (Resolved (Some (file_path v)) None,
           st\<lparr>rows := filter (\<lambda>v. slug v \<noteq> s) (rows st)\<rparr>)"
      using assms nf by (simp add: videos_delete_def)
    show ?thesis
      by (cases "fault w (StorageRemove (file_path v))")
         (simp_all add: admin_delete_def d deleteVideoBySlug_def storage_remove_def Let_def)
  qed
  have ko: "admin_delete w st req s = (Send 400 ''Gagal hapus'', st)"
    if "fault w (DeleteSlug s) \<noteq> NoFault"
    using that
    by (cases "fault w (DeleteSlug s)")
       (simp_all add: admin_delete_def videos_delete_def deleteVideoBySlug_def)
  have rt: "app cfg w st req = Some (admin_delete w st req s)"
    if "host_filter cfg req = None" "checkAdmin (ADMIN_KEY cfg) req = None"
      "route req = AdminDelete s"
    using that by (simp add: app_def routes_def)
  from ok ko rt show ?thesis by blast
qed

theorem delete_best_effort_witness:
  "filter (\<lambda>v. slug v = ''a'') (rows example_store) = [example_row]
   \<and> (\<exists>st'. app example_config
               (example_world\<lparr>fault := (\<lambda>c. if c = StorageRemove ''trailers/1_a.mp4''
                    then Throws (Exn ''FetchError'' ''fetch failed'') else NoFault)\<rparr>)
               example_store (example_request\<lparr>route := AdminDelete ''a''\<rparr>)
             = Some (Redirect 302 ''/admin?key='', st')
           \<and> rows st' = [] \<and> blobs st' = blobs example_store)"
  using delete_best_effort [where s = "''a''" and st = example_store and v = example_row
      and cfg = example_config and req = "example_request\<lparr>route := AdminDelete ''a''\<rparr>"
      and w = "example_world\<lparr>fault := (\<lambda>c. if c = StorageRemove ''trailers/1_a.mp4''
                    then Throws (Exn ''FetchError'' ''fetch failed'') else NoFault)\<rparr>"]
  by (simp add: host_filter_def allow_list_def allowHost_def effective_host_def checkAdmin_def
      eval_strings Let_def)

text \<open>
  Claim C9. Starting from a table with pairwise different slugs, requests handled one
  after the other (uploads and deletes among them) keep the slugs pairwise different,
  and every request leaves the table as it was, appends one row, or removes the rows of
  one slug: no row is ever changed. The upload route plays its part: a slug it
  allocates is the slug of no row whenever the lookup of that slug was not answered
  with an error, so the insert is then not refused.
\<close>

theorem store_invariants:
  assumes "distinct (map slug (rows st))"
  shows
   "(\<exists>st'. run cfg st ops = Some st' \<and> distinct (map slug (rows st')))
    \<and> (app cfg w0 st0 req0 = Some (r, st1) \<longrightarrow>
          rows st1 = rows st0 \<or> (\<exists>v. rows st1 = rows st0 @ [v])
          \<or> (\<exists>s. rows st1 = filter (\<lambda>v. slug v \<noteq> s) (rows st0)))
    \<and> (allocate_slug (slugify w0) (videos_select_slug w0 st0) t = Some (Inr s0)
          \<and> (\<forall>e. fault w0 (SelectSlug s0) \<noteq> ErrorReply e)
          \<longrightarrow> s0 \<notin> set (map slug (rows st0)))"
  using run_distinct [OF assms] app_rows allocate_fresh by blast

theorem store_invariants_witness:
  "distinct (map slug (rows example_store))
   \<and> map_option (\<lambda>st. map slug (rows st))
       (run example_config example_store
          [(example_world, example_upload ''a'' ''video/mp4''),
           (example_world\<lparr>fault := (\<lambda>c. if c = SelectSlug ''a''
                then ErrorReply (Exn ''FetchError'' ''fetch failed'') else NoFault)\<rparr>,
            example_upload ''a'' ''video/mp4''),
           (example_world, example_request\<lparr>route := AdminDelete ''a''\<rparr>)])
     = Some [''a-2'']"
  using store_invariants [where st = example_store and cfg = example_config
      and ops = "[(example_world, example_upload ''a'' ''video/mp4''),
           (example_world\<lparr>fault := (\<lambda>c. if c = SelectSlug ''a''
                then ErrorReply (Exn ''FetchError'' ''fetch failed'') else NoFault)\<rparr>,
            example_upload ''a'' ''video/mp4''),
           (example_world, example_request\<lparr>route := AdminDelete ''a''\<rparr>)]"]
  by (simp add: eval_app eval_strings eval_slug)

text \<open>
  When the lookup of a taken slug is answered with an error, \<open>getVideoBySlug\<close> returns
  absent and the loop takes the slug for free; the table then refuses the insert, the
  route answers 400 and the table is as before.
\<close>

lemma upload_after_failed_lookup:
  "map_option (\<lambda>(r, st). (r, map slug (rows st)))
     (app example_config
        (example_world\<lparr>fault := (\<lambda>c. if c = SelectSlug ''a''
              then ErrorReply (Exn ''FetchError'' ''fetch failed'') else NoFault)\<rparr>)
        example_store (example_upload ''a'' ''video/mp4''))
   = Some (Send 400 ''duplicate key value'', [''a''])"
  by (simp add: eval_app eval_strings eval_slug)

end
